theory Spec2Isabelle
  imports Main "HOL-Library.Sublist" "HOL-Library.Multiset"
begin

section \<open>Documentation records and the duplicate resolver (ESDoc.\_resolveDuplication)\<close>

text \<open>
  A documentation record (a \<open>Tag\<close> of the source). \<open>_resolveDuplication\<close> reads three
  properties of a record: \<open>__docId__\<close>, \<open>kind\<close> and \<open>longname\<close>. Records built by
  \<open>_generateForIndex\<close>, \<open>_generateForPackageJSON\<close> and \<open>_generateForOldPackageJSON\<close> carry
  no \<open>__docId__\<close> property, so reading it yields \<open>undefined\<close>: the identifier is optional
  here, \<open>None\<close> standing for \<open>undefined\<close>. Everything else a record carries lives in the
  extension of the record scheme.
\<close>

record doc =
  docId :: "nat option"
  kind :: string
  longname :: string

text \<open>
  \<open>ids.sort((a, b) => a < b ? -1 : 1)\<close>: \<open>Array.prototype.sort\<close> moves every \<open>undefined\<close>
  element behind the others without consulting the comparison function, and the
  comparison function puts the numbers in ascending order (it never answers 0, which
  only matters for equal numbers, and those cannot be told apart in the result).
\<close>

definition sort_ids :: "nat option list \<Rightarrow> nat option list" where
  "sort_ids ids =
     map Some (sort (map the (filter (\<lambda>i. i \<noteq> None) ids))) @ filter (\<lambda>i. i = None) ids"

text \<open>
  One iteration of \<open>for (const memberDoc of memberDocs)\<close>: the identifiers this member
  record pushes onto \<open>removeIds\<close>.
\<close>

definition pushed_ids :: "'a doc_scheme list \<Rightarrow> 'a doc_scheme \<Rightarrow> nat option list" where
  "pushed_ids docs memberDoc =
     (case find (\<lambda>doc. longname doc = longname memberDoc \<and> kind doc \<noteq> ''member'') docs of
        Some sameLongnameDoc \<Rightarrow> [docId memberDoc]
      | None \<Rightarrow>
          (let dup = filter (\<lambda>doc. longname doc = longname memberDoc \<and> kind doc = ''member'') docs
           in if length dup > 1 then tl (sort_ids (map docId dup)) else []))"

text \<open>The loop over \<open>memberDocs\<close>, threading \<open>removeIds\<close>.\<close>

fun collect_removeIds ::
  "'a doc_scheme list \<Rightarrow> 'a doc_scheme list \<Rightarrow> nat option list \<Rightarrow> nat option list" where
  "collect_removeIds docs [] removeIds = removeIds"
| "collect_removeIds docs (memberDoc # rest) removeIds =
     collect_removeIds docs rest (removeIds @ pushed_ids docs memberDoc)"

definition resolveDuplication :: "'a doc_scheme list \<Rightarrow> 'a doc_scheme list" where
  "resolveDuplication docs =
     (let memberDocs = filter (\<lambda>doc. kind doc = ''member'') docs;
          removeIds = collect_removeIds docs memberDocs []
      in filter (\<lambda>doc. docId doc \<notin> set removeIds) docs)"

text \<open>
  The order in which \<open>sort_ids\<close> arranges identifiers: numbers ascending, \<open>undefined\<close>
  last.
\<close>

fun id_less :: "nat option \<Rightarrow> nat option \<Rightarrow> bool" where
  "id_less (Some a) (Some b) = (a < b)"
| "id_less (Some a) None = True"
| "id_less None b = False"

section \<open>Paths, the file system and the outcome of effectful code\<close>

text \<open>
  A path is the list of its segments below the working directory of the process, which
  is the root of the modelled file system (so \<open>path.resolve(p)\<close> of a relative path \<open>p\<close>
  is \<open>p\<close> itself, normalised). The empty list stands for the empty string. A \<open>..\<close> at the
  root stays at the root.
\<close>

type_synonym path = "string list"

definition path_step :: "path \<Rightarrow> string \<Rightarrow> path" where
  "path_step p s = (if s = [] \<or> s = ''.'' then p else if s = ''..'' then butlast p else p @ [s])"

definition path_resolve :: "path \<Rightarrow> path \<Rightarrow> path" where
  "path_resolve base rel = foldl path_step base rel"

fun path_relative :: "path \<Rightarrow> path \<Rightarrow> path" where
  "path_relative [] target = target"
| "path_relative (a # as) [] = replicate (length (a # as)) ''..''"
| "path_relative (a # as) (b # bs) =
     (if a = b then path_relative as bs else replicate (length (a # as)) ''..'' @ (b # bs))"

definition path_string :: "path \<Rightarrow> string" where
  "path_string p = concat (map (\<lambda>s. ''/'' @ s) p)"

definition basename :: "path \<Rightarrow> string" where
  "basename p = (if p = [] then [] else last p)"

text \<open>
  What \<open>require\<close> or \<open>JSON.parse\<close> yields for the content of a file: a falsy value
  (\<open>null\<close>, \<open>false\<close>, \<open>0\<close>, \<open>""\<close>) or a package object, of which the code reads \<open>name\<close>,
  \<open>main\<close> and \<open>directories.src\<close> (absent or falsy: \<open>None\<close>).
\<close>

record package_obj =
  pkg_name :: "string option"
  pkg_main :: "string option"
  directories_src :: "path option"

datatype json = JFalsy | JObject package_obj

text \<open>
  A node of the file system: a regular file (with the value its content parses to, \<open>None\<close>
  when it does not parse), a directory with the names \<open>readdirSync\<close> lists, or something
  that is neither.
\<close>

datatype fsnode = File "json option" | Dir "string list" | Other

type_synonym filesystem = "path \<Rightarrow> fsnode option"

datatype exn =
    AssertionError
  | TypeError
  | SyntaxError
  | ENOENT path
  | ENOTDIR path
  | EISDIR path
  | ExtractionError path

definition readdirSync :: "filesystem \<Rightarrow> path \<Rightarrow> exn + string list" where
  "readdirSync fsys p =
     (case fsys p of None \<Rightarrow> Inl (ENOENT p) | Some (Dir entries) \<Rightarrow> Inr entries | Some _ \<Rightarrow> Inl (ENOTDIR p))"

definition statSync :: "filesystem \<Rightarrow> path \<Rightarrow> exn + fsnode" where
  "statSync fsys p = (case fsys p of None \<Rightarrow> Inl (ENOENT p) | Some node \<Rightarrow> Inr node)"

definition readFileSync :: "filesystem \<Rightarrow> path \<Rightarrow> exn + json option" where
  "readFileSync fsys p =
     (case fsys p of None \<Rightarrow> Inl (ENOENT p) | Some (File content) \<Rightarrow> Inr content | Some _ \<Rightarrow> Inl (EISDIR p))"

text \<open>\<open>require(packagePath)\<close>: \<open>None\<close> when it throws.\<close>

definition require :: "filesystem \<Rightarrow> path \<Rightarrow> json option" where
  "require fsys p = (case fsys p of Some (File (Some v)) \<Rightarrow> Some v | _ \<Rightarrow> None)"

section \<open>Configuration\<close>

record config =
  root :: "path option"
  source :: "path option"
  package :: "path option"
  destination :: "path option"
  includes' :: "string list option"
  excludes' :: "string list option"
  index :: "path option"
  plugins :: "string list"
  other_keys :: "string list"

text \<open>JavaScript truthiness of an optional string: present and not empty.\<close>

definition truthy :: "'b list option \<Rightarrow> bool" where
  "truthy v = (case v of None \<Rightarrow> False | Some s \<Rightarrow> s \<noteq> [])"

text \<open>The path held by a configuration property; it is read where the property is truthy.\<close>

definition path_of :: "path option \<Rightarrow> path" where
  "path_of v = (case v of None \<Rightarrow> [] | Some p \<Rightarrow> p)"

text \<open>The observable steps of a run, in the order in which they happen.\<close>

datatype event =
    PluginInit "string list"
  | PluginOnStart
  | PluginOnHandleConfig config
  | PluginOnHandleDocs
  | Readdir path
  | Stat path
  | Require path
  | ReadFile path
  | WriteIndexJson path
  | LogInfoParse path
  | ParseFile path
  | InvalidCodeShowFile path
  | InvalidCodeShow path
  | ConsoleLogFoundPackage path
  | ConsoleErrorFailedToParse path
  | ConsoleErrorSrcMissing path
  | ConsoleErrorSrcNotDirectory path
  | ConsoleErrorPackageHint
  | ConsoleErrorOverrideHint
  | ConsoleErrorUnparseable path
  | ConsoleErrorOldConfig string

text \<open>
  The state of a run: the \<open>results\<close> array, the jobs written to
  \<open>stringifyWriteTransform\<close>, the trace of steps, and the content of \<open>index.json\<close> once
  it is written.
\<close>

record 'a run_state =
  results :: "doc list"
  ast_writes :: "(path \<times> 'a) list"
  trace :: "event list"
  index_json :: "doc list option"

datatype ('v, 's) outcome = Returned 'v 's | Threw exn 's | Exited nat 's

definition init_state :: "'a run_state" where
  "init_state = \<lparr>results = [], ast_writes = [], trace = [], index_json = None\<rparr>"

definition log :: "event list \<Rightarrow> 'a run_state \<Rightarrow> 'a run_state" where
  "log evs st = st\<lparr>trace := trace st @ evs\<rparr>"

text \<open>
  What \<open>ESParser.parse\<close> throws: an error that carries a location (\<open>error.loc.line\<close>, as
  the parser's syntax errors do) or one that does not.
\<close>

datatype parse_failure = ErrorAt nat | ErrorWithoutLoc

text \<open>
  What the run takes from outside this file:
  \<^item> the file system;
  \<^item> \<open>new RegExp\<close> (\<open>None\<close> for a pattern that does not compile);
  \<^item> \<open>ESParser.parse\<close> (\<open>Inl\<close> the error it throws);
  \<^item> \<open>InvalidCodeLogger.showFile(filePath, e)\<close>, which \<open>_traverse\<close> calls in its \<open>catch\<close>
    block outside any \<open>try\<close>: \<open>Some\<close> the exception when the logger itself throws;
  \<^item> \<open>new PathResolver(...)\<close> and \<open>new DocFactory(...)\<close>, also outside any \<open>try\<close>: \<open>Some\<close> the
    exception when a constructor throws;
  \<^item> the traversal of the AST with \<open>factory.push\<close>: the records of the file, or \<open>Inl\<close> the
    exception that is thrown again after \<open>InvalidCodeLogger.show\<close>;
  \<^item> the two plugin hooks whose result the run uses.
\<close>

record 'a env =
  fs :: filesystem
  RegExp :: "string \<Rightarrow> (path \<Rightarrow> bool) option"
  parse :: "path \<Rightarrow> parse_failure + 'a"
  showFile :: "path \<Rightarrow> parse_failure \<Rightarrow> exn option"
  construct :: "path option \<Rightarrow> path \<Rightarrow> string option \<Rightarrow> string option \<Rightarrow> exn option"
  extractDocs :: "path option \<Rightarrow> path \<Rightarrow> string option \<Rightarrow> string option \<Rightarrow> 'a \<Rightarrow> exn + doc list"
  onHandleConfig :: "config \<Rightarrow> config"
  onHandleDocs :: "doc list \<Rightarrow> doc list"

subsection \<open>\_checkOldConfig and \_setDefaultConfig\<close>

definition old_keys :: "string list" where
  "old_keys = [''access'', ''autoPrivate'', ''unexportIdentifier'', ''undocumentIdentifier'',
     ''builtinExternal'', ''coverage'', ''test'', ''title'', ''manual'', ''lint'',
     ''includeSource'', ''styles'', ''scripts'', ''experimentalProposal'']"

definition checkOldConfig :: "config \<Rightarrow> 'a run_state \<Rightarrow> (unit, 'a run_state) outcome" where
  "checkOldConfig cfg st =
     (let hits = filter (\<lambda>key. key \<in> set (other_keys cfg)) old_keys;
          st' = log (map ConsoleErrorOldConfig hits) st
      in if hits \<noteq> [] then Exited 1 st' else Returned () st')"

definition default_includes :: "string list" where
  "default_includes = [CHR 0x5C # ''.js$'']"

definition default_excludes :: "string list" where
  "default_excludes = [CHR 0x5C # ''.config'' @ CHR 0x5C # ''.js$'', CHR 0x5C # ''.test'' @ CHR 0x5C # ''.js$'']"

definition setDefaultConfig :: "config \<Rightarrow> config" where
  "setDefaultConfig cfg =
     (let c1 = (if includes' cfg = None then cfg\<lparr>includes' := Some default_includes\<rparr> else cfg);
          c2 = (if excludes' c1 = None then c1\<lparr>excludes' := Some default_excludes\<rparr> else c1);
          c3 = (if \<not> truthy (index c2) then c2\<lparr>index := Some [''.'', ''README.md'']\<rparr> else c2)
      in if truthy (source c3) \<and> \<not> truthy (package c3)
         then c3\<lparr>package := Some [''.'', ''package.json'']\<rparr> else c3)"

text \<open>
  Lines 42 and 44 of \<open>generate\<close>: \<open>config = Plugin.onHandleConfig(config);
  this._setDefaultConfig(config);\<close>
\<close>

definition prepare_config :: "'a env \<Rightarrow> config \<Rightarrow> config" where
  "prepare_config e cfg = setDefaultConfig (onHandleConfig e cfg)"

text \<open>
  The order of the specification's sentence ("one rewrite by a config hook immediately
  after defaulting"), for comparison with \<open>prepare_config\<close>.
\<close>

definition spec_prepare_config :: "'a env \<Rightarrow> config \<Rightarrow> config" where
  "spec_prepare_config e cfg = onHandleConfig e (setDefaultConfig cfg)"

section \<open>The extraction driver: \_traverse, walkCallback, walkRootCallback\<close>

definition traverse ::
  "'a env \<Rightarrow> path option \<Rightarrow> path \<Rightarrow> string option \<Rightarrow> string option \<Rightarrow> 'a run_state
     \<Rightarrow> ((doc list \<times> 'a) option, 'a run_state) outcome" where
  "traverse e inDirPath filePath packageName mainFilePath st =
     (case parse e filePath of
        Inl err \<Rightarrow>
          (case showFile e filePath err of
             Some ex \<Rightarrow> Threw ex (log [ParseFile filePath, InvalidCodeShowFile filePath] st)
           | None \<Rightarrow> Returned None (log [ParseFile filePath, InvalidCodeShowFile filePath] st))
      | Inr ast \<Rightarrow>
          (case construct e inDirPath filePath packageName mainFilePath of
             Some ex \<Rightarrow> Threw ex (log [ParseFile filePath] st)
           | None \<Rightarrow>
               (case extractDocs e inDirPath filePath packageName mainFilePath ast of
                  Inl ex \<Rightarrow> Threw ex (log [ParseFile filePath, InvalidCodeShow filePath] st)
                | Inr rs \<Rightarrow> Returned (Some (rs, ast)) (log [ParseFile filePath] st))))"

text \<open>The loop over \<open>includes\<close>: the value of \<open>match\<close> when the loop is left.\<close>

fun includes_loop :: "(path \<Rightarrow> bool) list \<Rightarrow> path \<Rightarrow> bool" where
  "includes_loop [] relativeFilePath = False"
| "includes_loop (reg # regs) relativeFilePath =
     (if reg relativeFilePath then True else includes_loop regs relativeFilePath)"

text \<open>The loop over \<open>excludes\<close>: whether it returns from \<open>walkCallback\<close>.\<close>

fun excludes_loop :: "(path \<Rightarrow> bool) list \<Rightarrow> path \<Rightarrow> bool" where
  "excludes_loop [] relativeFilePath = False"
| "excludes_loop (reg # regs) relativeFilePath =
     (if reg relativeFilePath then True else excludes_loop regs relativeFilePath)"

text \<open>
  The variables of \<open>generate\<close> that \<open>walkCallback\<close> closes over and does not change.
\<close>

record 'a closure =
  cl_env :: "'a env"
  cl_source :: "path option"
  cl_includes :: "(path \<Rightarrow> bool) list"
  cl_excludes :: "(path \<Rightarrow> bool) list"
  cl_sourceDirPath :: path
  cl_packageName :: "string option"
  cl_mainFilePath :: "string option"

definition walkCallback :: "'a closure \<Rightarrow> path \<Rightarrow> 'a run_state \<Rightarrow> (unit, 'a run_state) outcome" where
  "walkCallback cl filePath st =
     (let relativeFilePath = path_relative (cl_sourceDirPath cl) filePath
      in if \<not> includes_loop (cl_includes cl) relativeFilePath then Returned () st
         else if excludes_loop (cl_excludes cl) relativeFilePath then Returned () st
         else
           (case traverse (cl_env cl) (cl_source cl) filePath (cl_packageName cl) (cl_mainFilePath cl)
                   (log [LogInfoParse filePath] st) of
              Threw ex st1 \<Rightarrow> Threw ex st1
            | Exited code st1 \<Rightarrow> Exited code st1
            | Returned None st1 \<Rightarrow> Returned () st1
            | Returned (Some (rs, ast)) st1 \<Rightarrow>
                Returned ()
                  (st1\<lparr>results := results st1 @ rs,
                       ast_writes := ast_writes st1 @ [(''source'' # relativeFilePath, ast)]\<rparr>)))"

definition generateForPackageJSON :: "string \<Rightarrow> doc" where
  "generateForPackageJSON packagePath = \<lparr>docId = None, kind = ''package'', longname = packagePath\<rparr>"

definition walkRootCallback ::
  "'a closure \<Rightarrow> path \<Rightarrow> json option \<Rightarrow> 'a run_state \<Rightarrow> (unit, 'a run_state) outcome" where
  "walkRootCallback cl filePath fileContents st =
     (if basename filePath = ''package.json''
      then Returned () (st\<lparr>results := results st @ [generateForPackageJSON (path_string filePath)]\<rparr>)
      else walkCallback cl filePath st)"

section \<open>The directory walker: \_walk and \_walkRoot\<close>

text \<open>
  The function passed as \<open>recurse\<close>. \<open>_walk\<close> calls it as a plain function,
  \<open>recurse(entryPath, callback, recurse)\<close>, so inside the callee \<open>this\<close> is \<open>undefined\<close>
  (class bodies are strict code). \<open>_walk\<close> itself reads \<open>this\<close> only for the default value
  of \<open>recurse\<close>, which the nested calls always supply; \<open>_walkRoot\<close> reads it for
  \<open>this._walkRoot\<close> and \<open>this._walk\<close>.
\<close>

datatype walker = WALK | WALKROOT

datatype this_val = ESDoc | Undefined

definition src_of :: "package_obj \<Rightarrow> path" where
  "src_of packageObj =
     (case directories_src packageObj of None \<Rightarrow> [''src''] | Some s \<Rightarrow> if s = [] then [''src''] else s)"

text \<open>The messages \<open>_walkRoot\<close> prints after looking at the source directory.\<close>

definition srcDir_diagnostics :: "filesystem \<Rightarrow> path \<Rightarrow> event list" where
  "srcDir_diagnostics fsys srcDir =
     (case statSync fsys srcDir of
        Inl ex \<Rightarrow> [ConsoleErrorSrcMissing srcDir, ConsoleErrorPackageHint, ConsoleErrorOverrideHint]
      | Inr (Dir entries) \<Rightarrow> []
      | Inr other \<Rightarrow> [ConsoleErrorSrcNotDirectory srcDir, ConsoleErrorPackageHint, ConsoleErrorOverrideHint])"

text \<open>
  The recursion of the walker has no bound of its own (\<open>directories.src\<close> may name the
  package directory itself), so the functions take fuel, one unit per call of \<open>_walk\<close> or
  \<open>_walkRoot\<close>; \<open>None\<close> means the fuel ran out.
\<close>

fun walk ::
    "nat \<Rightarrow> filesystem \<Rightarrow> path \<Rightarrow> (path \<Rightarrow> json option \<Rightarrow> 'a run_state \<Rightarrow> (unit, 'a run_state) outcome)
       \<Rightarrow> walker \<Rightarrow> 'a run_state \<Rightarrow> (unit, 'a run_state) outcome option"
  and walk_entries ::
    "nat \<Rightarrow> filesystem \<Rightarrow> path \<Rightarrow> string list
       \<Rightarrow> (path \<Rightarrow> json option \<Rightarrow> 'a run_state \<Rightarrow> (unit, 'a run_state) outcome)
       \<Rightarrow> walker \<Rightarrow> 'a run_state \<Rightarrow> (unit, 'a run_state) outcome option"
  and walkRoot ::
    "nat \<Rightarrow> this_val \<Rightarrow> filesystem \<Rightarrow> path
       \<Rightarrow> (path \<Rightarrow> json option \<Rightarrow> 'a run_state \<Rightarrow> (unit, 'a run_state) outcome)
       \<Rightarrow> 'a run_state \<Rightarrow> (unit, 'a run_state) outcome option"
where
  "walk 0 fsys dirPath callback recurse st = None"
| "walk (Suc n) fsys dirPath callback recurse st =
     (case readdirSync fsys dirPath of
        Inl ex \<Rightarrow> Some (Threw ex (log [Readdir dirPath] st))
      | Inr entries \<Rightarrow> walk_entries n fsys dirPath entries callback recurse (log [Readdir dirPath] st))"
| "walk_entries n fsys dirPath [] callback recurse st = Some (Returned () st)"
| "walk_entries n fsys dirPath (entry # rest) callback recurse st =
     (case statSync fsys (path_resolve dirPath [entry]) of
        Inl ex \<Rightarrow> Some (Threw ex (log [Stat (path_resolve dirPath [entry])] st))
      | Inr (File content) \<Rightarrow>
          (case callback (path_resolve dirPath [entry]) None (log [Stat (path_resolve dirPath [entry])] st) of
             Returned u st' \<Rightarrow> walk_entries n fsys dirPath rest callback recurse st'
           | Threw ex st' \<Rightarrow> Some (Threw ex st')
           | Exited code st' \<Rightarrow> Some (Exited code st'))
      | Inr (Dir entries) \<Rightarrow>
          (case (case recurse of
                   WALK \<Rightarrow> walk n fsys (path_resolve dirPath [entry]) callback recurse
                             (log [Stat (path_resolve dirPath [entry])] st)
                 | WALKROOT \<Rightarrow> walkRoot n Undefined fsys (path_resolve dirPath [entry]) callback
                             (log [Stat (path_resolve dirPath [entry])] st)) of
             Some (Returned u st') \<Rightarrow> walk_entries n fsys dirPath rest callback recurse st'
           | other \<Rightarrow> other)
      | Inr Other \<Rightarrow>
          walk_entries n fsys dirPath rest callback recurse (log [Stat (path_resolve dirPath [entry])] st))"
| "walkRoot 0 this fsys dirPath callback st = None"
| "walkRoot (Suc n) this fsys dirPath callback st =
     (case readdirSync fsys dirPath of
        Inl ex \<Rightarrow> Some (Threw ex (log [Readdir dirPath] st))
      | Inr entries \<Rightarrow>
          if ''package.json'' \<in> set entries
          then
            (case require fsys (path_resolve dirPath [''package.json'']) of
               None \<Rightarrow>
                 Some (Returned ()
                   (log [Readdir dirPath, Require (path_resolve dirPath [''package.json'']),
                         ConsoleErrorFailedToParse (path_resolve dirPath [''package.json'']),
                         ConsoleErrorUnparseable (path_resolve dirPath [''package.json''])] st))
             | Some JFalsy \<Rightarrow>
                 Some (Returned ()
                   (log [Readdir dirPath, Require (path_resolve dirPath [''package.json'']),
                         ConsoleLogFoundPackage (path_resolve dirPath [''package.json'']),
                         ConsoleErrorUnparseable (path_resolve dirPath [''package.json''])] st))
             | Some (JObject packageObj) \<Rightarrow>
                 (case callback (path_resolve dirPath [''package.json'']) (Some (JObject packageObj))
                         (log ([Readdir dirPath, Require (path_resolve dirPath [''package.json'']),
                                ConsoleLogFoundPackage (path_resolve dirPath [''package.json'']),
                                Stat (path_resolve dirPath (src_of packageObj))]
                               @ srcDir_diagnostics fsys (path_resolve dirPath (src_of packageObj))) st) of
                    Returned u st' \<Rightarrow>
                      (case this of
                         ESDoc \<Rightarrow> walkRoot n ESDoc fsys (path_resolve dirPath (src_of packageObj)) callback st'
                       | Undefined \<Rightarrow> Some (Threw TypeError st'))
                  | Threw ex st' \<Rightarrow> Some (Threw ex st')
                  | Exited code st' \<Rightarrow> Some (Exited code st')))
          else
            (case this of
               ESDoc \<Rightarrow> walk n fsys dirPath callback WALKROOT (log [Readdir dirPath] st)
             | Undefined \<Rightarrow> Some (Threw TypeError (log [Readdir dirPath] st))))"

section \<open>The output assembler and generate\<close>

definition generateForIndex :: "config \<Rightarrow> doc" where
  "generateForIndex cfg =
     \<lparr>docId = None, kind = ''index'', longname = path_string (path_resolve [] (path_of (index cfg)))\<rparr>"

text \<open>
  \<open>_generateForOldPackageJSON\<close>: the read is inside \<open>try\<close>, and \<open>packagePath\<close> stays \<open>''\<close>
  when it throws.
\<close>

definition generateForOldPackageJSON :: "filesystem \<Rightarrow> config \<Rightarrow> doc" where
  "generateForOldPackageJSON fsys cfg =
     (case readFileSync fsys (path_resolve [] (path_of (package cfg))) of
        Inl ex \<Rightarrow> \<lparr>docId = None, kind = ''packageJSON'', longname = []\<rparr>
      | Inr content \<Rightarrow>
          \<lparr>docId = None, kind = ''packageJSON'',
           longname = path_string (path_resolve [] (path_of (package cfg)))\<rparr>)"

text \<open>Lines 49 to 60: \<open>packageName\<close> and \<open>mainFilePath\<close>, every failure ignored.\<close>

definition read_package_info :: "filesystem \<Rightarrow> config \<Rightarrow> string option \<times> string option" where
  "read_package_info fsys cfg =
     (if truthy (package cfg)
      then (case readFileSync fsys (path_resolve [] (path_of (package cfg))) of
              Inr (Some (JObject packageConfig)) \<Rightarrow> (pkg_name packageConfig, pkg_main packageConfig)
            | _ \<Rightarrow> (None, None))
      else (None, None))"

text \<open>
  Lines 143 to 162: the synthetic records, the duplicate resolver, the docs hook and
  \<open>index.json\<close>. \<open>path.resolve(config.destination, 'index.json')\<close> throws a \<open>TypeError\<close>
  when the hook has left no \<open>destination\<close>; the write itself is taken to succeed.
\<close>

definition assemble :: "'a env \<Rightarrow> config \<Rightarrow> 'a run_state \<Rightarrow> (unit, 'a run_state) outcome" where
  "assemble e cfg st =
     (case (if truthy (index cfg)
            then (case readFileSync (fs e) (path_resolve [] (path_of (index cfg))) of
                    Inl ex \<Rightarrow> Inl (ex, log [ReadFile (path_resolve [] (path_of (index cfg)))] st)
                  | Inr content \<Rightarrow>
                      Inr ((log [ReadFile (path_resolve [] (path_of (index cfg)))] st)
                            \<lparr>results := results st @ [generateForIndex cfg]\<rparr>))
            else Inr st) of
        Inl (ex, st1) \<Rightarrow> Threw ex st1
      | Inr st1 \<Rightarrow>
          (let st2 = (if truthy (package cfg)
                      then (log [ReadFile (path_resolve [] (path_of (package cfg)))] st1)
                             \<lparr>results := results st1 @ [generateForOldPackageJSON (fs e) cfg]\<rparr>
                      else st1);
               final = onHandleDocs e (resolveDuplication (results st2));
               st3 = (log [PluginOnHandleDocs] st2)\<lparr>results := final\<rparr>
           in case destination cfg of
                None \<Rightarrow> Threw TypeError st3
              | Some dest \<Rightarrow>
                  Returned ()
                    ((log [WriteIndexJson (path_resolve [] (dest @ [''index.json'']))] st3)
                       \<lparr>index_json := Some final\<rparr>)))"

text \<open>
  Lines 46 to 163 of \<open>generate\<close>, with the configuration as it stands after line 44.
  \<open>new RegExp(v)\<close> throws a \<open>SyntaxError\<close> for a pattern that does not compile, and
  \<open>path.resolve(config.source)\<close> a \<open>TypeError\<close> when \<open>config.source\<close> is \<open>undefined\<close>. The
  jobs written to \<open>stringifyWriteTransform\<close> are recorded in \<open>ast_writes\<close>; what the stream
  does with them later (the files under \<open>ast/\<close>, \<open>_publish\<close>, \<open>Plugin.onComplete\<close>) happens
  after this synchronous part and is not modelled.
\<close>

definition run_with_config ::
  "nat \<Rightarrow> 'a env \<Rightarrow> config \<Rightarrow> 'a run_state \<Rightarrow> (unit, 'a run_state) outcome option" where
  "run_with_config fuel e cfg st =
     (case includes' cfg of
        None \<Rightarrow> Some (Threw TypeError st)
      | Some includePatterns \<Rightarrow>
     (case those (map (RegExp e) includePatterns) of
        None \<Rightarrow> Some (Threw SyntaxError st)
      | Some incs \<Rightarrow>
     (case excludes' cfg of
        None \<Rightarrow> Some (Threw TypeError st)
      | Some excludePatterns \<Rightarrow>
     (case those (map (RegExp e) excludePatterns) of
        None \<Rightarrow> Some (Threw SyntaxError st)
      | Some excs \<Rightarrow>
          (let info = read_package_info (fs e) cfg;
               st1 = (if truthy (package cfg)
                      then log [ReadFile (path_resolve [] (path_of (package cfg)))] st else st)
           in case source cfg of
                None \<Rightarrow> Some (Threw TypeError st1)
              | Some src \<Rightarrow>
                  (let cl = \<lparr>cl_env = e, cl_source = source cfg, cl_includes = incs, cl_excludes = excs,
                              cl_sourceDirPath = path_resolve [] src,
                              cl_packageName = fst info, cl_mainFilePath = snd info\<rparr>
                   in case (if truthy (root cfg)
                            then walkRoot fuel ESDoc (fs e) (path_resolve [] (path_of (root cfg)))
                                   (walkRootCallback cl) st1
                            else walk fuel (fs e) (path_resolve [] src)
                                   (\<lambda>filePath fileContents. walkCallback cl filePath) WALK st1) of
                        None \<Rightarrow> None
                      | Some (Returned u st2) \<Rightarrow> Some (assemble e cfg st2)
                      | Some other \<Rightarrow> Some other))))))"

definition generate :: "nat \<Rightarrow> 'a env \<Rightarrow> config \<Rightarrow> (unit, 'a run_state) outcome option" where
  "generate fuel e cfg =
     (if \<not> (truthy (root cfg) \<or> truthy (source cfg)) then Some (Threw AssertionError init_state)
      else if truthy (root cfg) \<and> truthy (source cfg) then Some (Threw AssertionError init_state)
      else if truthy (root cfg) \<and> truthy (package cfg) then Some (Threw AssertionError init_state)
      else if \<not> truthy (destination cfg) then Some (Threw AssertionError init_state)
      else
        (case checkOldConfig cfg init_state of
           Exited code st \<Rightarrow> Some (Exited code st)
         | Threw ex st \<Rightarrow> Some (Threw ex st)
         | Returned u st \<Rightarrow>
             run_with_config fuel e (prepare_config e cfg)
               (log [PluginInit (plugins cfg), PluginOnStart, PluginOnHandleConfig cfg] st)))"

section \<open>Reading outcomes, and the inputs of the worked examples\<close>

fun outcome_state :: "('v, 's) outcome \<Rightarrow> 's" where
  "outcome_state (Returned v st) = st"
| "outcome_state (Threw ex st) = st"
| "outcome_state (Exited code st) = st"

definition new_events :: "'a run_state \<Rightarrow> ('v, 'a run_state) outcome \<Rightarrow> event list" where
  "new_events st out = drop (length (trace st)) (trace (outcome_state out))"









text \<open>
  A stand-in for \<open>new RegExp\<close> that knows the three default patterns (each asks for a
  suffix of the last path segment) and rejects every other pattern.
\<close>

definition ends_with :: "string \<Rightarrow> path \<Rightarrow> bool" where
  "ends_with sfx rel = (rel \<noteq> [] \<and> drop (length (last rel) - length sfx) (last rel) = sfx)"

definition example_RegExp :: "string \<Rightarrow> (path \<Rightarrow> bool) option" where
  "example_RegExp pat =
     (if pat = CHR 0x5C # ''.js$'' then Some (ends_with ''.js'')
      else if pat = CHR 0x5C # ''.config'' @ CHR 0x5C # ''.js$'' then Some (ends_with ''.config.js'')
      else if pat = CHR 0x5C # ''.test'' @ CHR 0x5C # ''.js$'' then Some (ends_with ''.test.js'')
      else None)"

definition example_fs :: filesystem where
  "example_fs = map_of
     [([], Dir [''README.md'', ''package.json'', ''src'']),
      ([''README.md''], File None),
      ([''package.json''], File (Some (JObject \<lparr>pkg_name = Some ''pkg'', pkg_main = None, directories_src = None\<rparr>))),
      ([''src''], Dir [''good1.js'', ''bad.js'', ''good2.js'', ''good2.test.js'']),
      ([''src'', ''good1.js''], File None),
      ([''src'', ''bad.js''], File None),
      ([''src'', ''good2.js''], File None),
      ([''src'', ''good2.test.js''], File None)]"

definition example_env :: "nat env" where
  "example_env =
     \<lparr>fs = example_fs,
      RegExp = example_RegExp,
      parse = (\<lambda>p. if p = [''src'', ''bad.js''] then Inl (ErrorAt 1) else Inr (length p)),
      showFile = (\<lambda>p err. case err of ErrorAt line \<Rightarrow> None | ErrorWithoutLoc \<Rightarrow> Some TypeError),
      construct = (\<lambda>inDir p pn mf. if truthy inDir then None else Some AssertionError),
      extractDocs = (\<lambda>inDir p pn mf ast.
         if p = [''src'', ''good1.js'']
         then Inr [\<lparr>docId = Some 1, kind = ''class'', longname = ''src/good1.js~Good1''\<rparr>]
         else if p = [''src'', ''good2.js'']
         then Inr [\<lparr>docId = Some 2, kind = ''function'', longname = ''src/good2.js~good2''\<rparr>]
         else Inr []),
      onHandleConfig = (\<lambda>cfg. cfg),
      onHandleDocs = (\<lambda>docs. docs)\<rparr>"

definition example_config :: config where
  "example_config =
     \<lparr>root = None, source = Some [''src''], package = None, destination = Some [''out''],
      includes' = None, excludes' = None, index = None, plugins = [], other_keys = []\<rparr>"

definition example_closure :: "nat closure" where
  "example_closure =
     \<lparr>cl_env = example_env, cl_source = Some [''src''],
      cl_includes = [ends_with ''.js''],
      cl_excludes = [ends_with ''.config.js'', ends_with ''.test.js''],
      cl_sourceDirPath = [''src''], cl_packageName = Some ''pkg'', cl_mainFilePath = None\<rparr>"

definition missing_src_fs :: filesystem where
  "missing_src_fs = map_of
     [([], Dir [''package.json'', ''lib'']),
      ([''package.json''], File (Some (JObject \<lparr>pkg_name = Some ''pkg'', pkg_main = None, directories_src = None\<rparr>))),
      ([''lib''], Dir [])]"

definition broken_package_fs :: filesystem where
  "broken_package_fs = map_of
     [([], Dir [''a'', ''b.js'']),
      ([''a''], Dir [''package.json'', ''x.js'']),
      ([''a'', ''package.json''], File None),
      ([''a'', ''x.js''], File None),
      ([''b.js''], File None)]"

definition dropping_env :: "nat env" where
  "dropping_env = example_env\<lparr>onHandleConfig := (\<lambda>cfg. cfg\<lparr>includes' := None\<rparr>)\<rparr>"



text \<open>
  A root without \<open>package.json\<close>: a directory whose descriptor does not load, an ordinary
  directory and a file.
\<close>

definition sibling_dir_fs :: filesystem where
  "sibling_dir_fs = map_of
     [([], Dir [''a'', ''c'', ''b.js'']),
      ([''a''], Dir [''package.json'']),
      ([''a'', ''package.json''], File None),
      ([''c''], Dir [''y.js'']),
      ([''c'', ''y.js''], File None),
      ([''b.js''], File None)]"



section \<open>Properties of the duplicate resolver\<close>

lemma collect_removeIds_eq:
  "collect_removeIds docs ms acc = acc @ concat (map (pushed_ids docs) ms)"
  by (induction ms arbitrary: acc) simp_all

lemma set_removeIds:
  "set (collect_removeIds docs ms []) = (\<Union>m\<in>set ms. set (pushed_ids docs m))"
  by (simp add: collect_removeIds_eq)

lemma resolveDuplication_filter:
  "resolveDuplication docs =
     filter (\<lambda>doc. \<forall>m\<in>set docs. kind m = ''member'' \<longrightarrow> docId doc \<notin> set (pushed_ids docs m)) docs"
  unfolding resolveDuplication_def Let_def set_removeIds
  by (rule filter_cong) auto

lemma map_Some_the_filter:
  "map Some (map the (filter (\<lambda>i. i \<noteq> None) ids)) = filter (\<lambda>i. i \<noteq> None) ids"
  by (induction ids) auto

lemma mset_sort_ids: "mset (sort_ids ids) = mset ids"
proof -
  have "mset (map Some (sort (map the (filter (\<lambda>i. i \<noteq> None) ids))))
        = mset (map Some (map the (filter (\<lambda>i. i \<noteq> None) ids)))"
    by (simp only: mset_map mset_sort)
  also have "\<dots> = mset (filter (\<lambda>i. i \<noteq> None) ids)"
    by (simp only: map_Some_the_filter)
  finally have "mset (sort_ids ids) = mset (filter (\<lambda>i. i \<noteq> None) ids) + mset (filter (\<lambda>i. i = None) ids)"
    by (simp add: sort_ids_def)
  also have "\<dots> = mset ids"
    by (induction ids) auto
  finally show ?thesis .
qed

lemma set_sort_ids: "set (sort_ids ids) = set ids"
  by (rule mset_eq_setD) (rule mset_sort_ids)

lemma length_sort_ids: "length (sort_ids ids) = length ids"
  by (rule mset_eq_length) (rule mset_sort_ids)

lemma distinct_sort_ids: "distinct (sort_ids ids) = distinct ids"
  by (rule mset_eq_imp_distinct_iff) (rule mset_sort_ids)

lemma pushed_ids_competitor:
  assumes "d \<in> set docs" "longname d = longname m" "kind d \<noteq> ''member''"
  shows "pushed_ids docs m = [docId m]"
proof -
  have "find (\<lambda>doc. longname doc = longname m \<and> kind doc \<noteq> ''member'') docs \<noteq> None"
    using assms by (auto simp: find_None_iff)
  then show ?thesis by (auto simp: pushed_ids_def)
qed

lemma pushed_ids_no_competitor:
  assumes "\<forall>d\<in>set docs. longname d = longname m \<longrightarrow> kind d = ''member''"
  shows "pushed_ids docs m =
     (let dup = filter (\<lambda>doc. longname doc = longname m \<and> kind doc = ''member'') docs
      in if length dup > 1 then tl (sort_ids (map docId dup)) else [])"
proof -
  have "find (\<lambda>doc. longname doc = longname m \<and> kind doc \<noteq> ''member'') docs = None"
    using assms by (auto simp: find_None_iff)
  then show ?thesis by (simp add: pushed_ids_def)
qed

lemma in_set_tl: "x \<in> set (tl xs) \<Longrightarrow> x \<in> set xs"
  by (cases xs) auto

lemma pushed_ids_origin:
  assumes "x \<in> set (pushed_ids docs m)" "m \<in> set docs" "kind m = ''member''"
  shows "\<exists>m'\<in>set docs. kind m' = ''member'' \<and> longname m' = longname m \<and> docId m' = x"
proof (cases "find (\<lambda>doc. longname doc = longname m \<and> kind doc \<noteq> ''member'') docs")
  case (Some a)
  then have "x = docId m" using assms(1) by (simp add: pushed_ids_def)
  then show ?thesis using assms by auto
next
  case None
  let ?dup = "filter (\<lambda>doc. longname doc = longname m \<and> kind doc = ''member'') docs"
  from None assms(1) have "x \<in> set (tl (sort_ids (map docId ?dup)))"
    by (auto simp: pushed_ids_def Let_def split: if_splits)
  then have "x \<in> set (map docId ?dup)"
    using in_set_tl set_sort_ids by fastforce
  then show ?thesis by auto
qed

lemma member_with_competitor_removed:
  assumes "m \<in> set docs" "kind m = ''member''"
    and "d \<in> set docs" "longname d = longname m" "kind d \<noteq> ''member''"
  shows "m \<notin> set (resolveDuplication docs)"
proof
  assume "m \<in> set (resolveDuplication docs)"
  then have "docId m \<notin> set (pushed_ids docs m)"
    using assms(1,2) by (simp add: resolveDuplication_filter)
  then show False
    using pushed_ids_competitor [OF assms(3,4,5)] by simp
qed

lemma nonmember_kept:
  assumes "d \<in> set docs" "kind d \<noteq> ''member''"
    and "\<forall>m\<in>set docs. kind m = ''member'' \<longrightarrow> docId m \<noteq> docId d"
  shows "d \<in> set (resolveDuplication docs)"
proof -
  have "docId d \<notin> set (pushed_ids docs m)" if "m \<in> set docs" "kind m = ''member''" for m
  proof
    assume "docId d \<in> set (pushed_ids docs m)"
    from pushed_ids_origin [OF this that] assms(3) show False by auto
  qed
  then show ?thesis using assms(1) by (simp add: resolveDuplication_filter)
qed

lemma subseq_resolveDuplication: "subseq (resolveDuplication docs) docs"
  by (simp add: resolveDuplication_def Let_def)

lemma filter_notin_tl_perm:
  assumes "mset S = mset ids"
  shows "length (filter (\<lambda>x. x \<notin> set (tl S)) ids) \<le> 1"
proof -
  have "length (filter (\<lambda>x. x \<notin> set (tl S)) ids) = size (filter_mset (\<lambda>x. x \<notin> set (tl S)) (mset ids))"
    by (simp only: mset_filter [symmetric] size_mset)
  also have "\<dots> = length (filter (\<lambda>x. x \<notin> set (tl S)) S)"
    by (simp only: assms [symmetric] mset_filter [symmetric] size_mset)
  also have "\<dots> \<le> 1"
  proof (cases S)
    case Nil
    then show ?thesis by simp
  next
    case (Cons h t)
    have "filter (\<lambda>x. x \<notin> set t) t = []" by (simp add: filter_empty_conv)
    then show ?thesis using Cons by simp
  qed
  finally show ?thesis .
qed

lemma filter_swap: "filter P (filter Q xs) = filter Q (filter P xs)"
  by (induction xs) auto

lemma length_filter_mono:
  assumes "\<And>x. x \<in> set xs \<Longrightarrow> P x \<Longrightarrow> Q x"
  shows "length (filter P xs) \<le> length (filter Q xs)"
  using assms by (induction xs) auto

lemma resolved_member_pushes_nothing:
  assumes "m \<in> set (resolveDuplication docs)" "kind m = ''member''"
  shows "pushed_ids (resolveDuplication docs) m = []"
proof -
  let ?R = "resolveDuplication docs"
  let ?Q = "\<lambda>doc. longname doc = longname m \<and> kind doc = ''member''"
  let ?G = "filter ?Q docs"
  let ?T = "set (tl (sort_ids (map docId ?G)))"
  have m_docs: "m \<in> set docs"
    using assms(1) by (simp add: resolveDuplication_def Let_def)
  have R_sub: "set ?R \<subseteq> set docs"
    by (auto simp: resolveDuplication_def Let_def)
  have no_comp: "\<forall>d\<in>set docs. longname d = longname m \<longrightarrow> kind d = ''member''"
    using member_with_competitor_removed [OF m_docs assms(2)] assms(1) by blast
  then have no_comp_R: "\<forall>d\<in>set ?R. longname d = longname m \<longrightarrow> kind d = ''member''"
    using R_sub by blast
  have pushed: "pushed_ids docs m = (if length ?G > 1 then tl (sort_ids (map docId ?G)) else [])"
    using pushed_ids_no_competitor [OF no_comp] by (simp add: Let_def)
  have comm: "filter ?Q ?R =
      filter (\<lambda>d. \<forall>m\<in>set docs. kind m = ''member'' \<longrightarrow> docId d \<notin> set (pushed_ids docs m)) ?G"
    by (subst resolveDuplication_filter) (rule filter_swap)
  have "length (filter ?Q ?R) \<le> 1"
  proof (cases "length ?G > 1")
    case False
    have "length (filter ?Q ?R) \<le> length ?G"
      unfolding comm by (rule length_filter_le)
    then show ?thesis using False by simp
  next
    case True
    have keep: "docId d \<notin> ?T" if "d \<in> set ?R" for d
    proof -
      from that have "docId d \<notin> set (pushed_ids docs m)"
        using m_docs assms(2) by (simp add: resolveDuplication_filter)
      then show ?thesis using pushed True by simp
    qed
    have "length (filter ?Q ?R) \<le> length (filter (\<lambda>d. docId d \<notin> ?T) ?G)"
    proof -
      have "length (filter (\<lambda>d. \<forall>m\<in>set docs. kind m = ''member'' \<longrightarrow> docId d \<notin> set (pushed_ids docs m)) ?G)
            \<le> length (filter (\<lambda>d. docId d \<notin> ?T) ?G)"
        apply (rule length_filter_mono)
        using m_docs assms(2) pushed True by auto
      then show ?thesis unfolding comm .
    qed
    also have "\<dots> = length (filter (\<lambda>x. x \<notin> ?T) (map docId ?G))"
      by (simp add: filter_map o_def)
    also have "\<dots> \<le> 1"
      by (rule filter_notin_tl_perm) (rule mset_sort_ids)
    finally show ?thesis .
  qed
  then show ?thesis
    using pushed_ids_no_competitor [OF no_comp_R] by (simp add: Let_def)
qed

lemma resolveDuplication_idem: "resolveDuplication (resolveDuplication docs) = resolveDuplication docs"
proof -
  have "filter (\<lambda>doc. \<forall>m\<in>set (resolveDuplication docs). kind m = ''member'' \<longrightarrow>
           docId doc \<notin> set (pushed_ids (resolveDuplication docs) m)) (resolveDuplication docs)
        = resolveDuplication docs"
    by (simp add: filter_id_conv resolved_member_pushes_nothing)
  then show ?thesis
    using resolveDuplication_filter [of "resolveDuplication docs"] by simp
qed

lemma distinct_const_length:
  "distinct xs \<Longrightarrow> \<forall>y\<in>set xs. y = c \<Longrightarrow> length xs \<le> 1"
  by (cases xs; cases "tl xs") auto

lemma distinct_map_the:
  assumes "distinct ids"
  shows "distinct (map the (filter (\<lambda>i. i \<noteq> None) ids))"
proof -
  have "inj_on the (set (filter (\<lambda>i. i \<noteq> None) ids))"
    by (rule inj_onI) auto
  then show ?thesis using assms by (simp add: distinct_map)
qed

lemma sorted_distinct_hd_less:
  fixes a :: nat
  assumes "sorted (a # ns)" "distinct (a # ns)" "y \<in> set ns"
  shows "a < y"
  using assms by (auto simp: order_le_less)

lemma sort_ids_hd_least:
  assumes "distinct ids" "x \<in> set (tl (sort_ids ids))"
  shows "id_less (hd (sort_ids ids)) x"
proof -
  let ?ns = "sort (map the (filter (\<lambda>i. i \<noteq> None) ids))"
  let ?nones = "filter (\<lambda>i. i = None) ids"
  have S: "sort_ids ids = map Some ?ns @ ?nones" by (simp add: sort_ids_def)
  show ?thesis
  proof (cases ?ns)
    case Nil
    then have eq: "sort_ids ids = ?nones" using S by simp
    have "distinct ?nones" using assms(1) by simp
    moreover have "\<forall>y\<in>set ?nones. y = None" by simp
    ultimately have "length ?nones \<le> 1" by (rule distinct_const_length)
    then have "tl ?nones = []" by (cases ?nones) auto
    then show ?thesis using assms(2) eq by simp
  next
    case (Cons a ns')
    have "sorted ?ns" by simp
    then have 1: "sorted (a # ns')" by (simp only: Cons)
    have "distinct ?ns" using distinct_map_the [OF assms(1)] by simp
    then have 2: "distinct (a # ns')" by (simp only: Cons)
    have eq: "sort_ids ids = Some a # (map Some ns' @ ?nones)" using S Cons by simp
    from assms(2) have "x \<in> set (map Some ns' @ ?nones)" by (simp only: eq list.sel)
    then have "x \<in> Some ` set ns' \<or> x = None" by auto
    then show ?thesis
    proof
      assume "x \<in> Some ` set ns'"
      then obtain y where y: "x = Some y" "y \<in> set ns'" by auto
      from sorted_distinct_hd_less [OF 1 2 y(2)] show ?thesis by (simp add: eq y(1))
    next
      assume "x = None"
      then show ?thesis by (simp add: eq)
    qed
  qed
qed

lemma filter_eq_singleton:
  "distinct xs \<Longrightarrow> x \<in> set xs \<Longrightarrow> filter (\<lambda>y. y = x) xs = [x]"
  by (induction xs) (auto simp: filter_empty_conv)

lemma hd_notin_tl: "distinct xs \<Longrightarrow> xs \<noteq> [] \<Longrightarrow> hd xs \<notin> set (tl xs)"
  by (cases xs) auto

lemma member_collapse:
  fixes docs :: "'a doc_scheme list"
  assumes dist: "distinct (map docId (filter (\<lambda>d. kind d = ''member'') docs))"
    and two: "2 \<le> length (filter (\<lambda>d. longname d = L \<and> kind d = ''member'') docs)"
    and nocomp: "\<forall>d\<in>set docs. longname d = L \<longrightarrow> kind d = ''member''"
  shows "\<exists>m\<in>set docs. kind m = ''member'' \<and> longname m = L
           \<and> (\<forall>m'\<in>set docs. longname m' = L \<and> m' \<noteq> m \<longrightarrow> id_less (docId m) (docId m'))
           \<and> filter (\<lambda>d. longname d = L) (resolveDuplication docs) = [m]"
proof -
  let ?G = "filter (\<lambda>d. longname d = L \<and> kind d = ''member'') docs"
  let ?S = "sort_ids (map docId ?G)"
  let ?K = "\<lambda>d. \<forall>m\<in>set docs. kind m = ''member'' \<longrightarrow> docId d \<notin> set (pushed_ids docs m)"
  let ?M = "filter (\<lambda>d. kind d = ''member'') docs"
  have inj: "inj_on docId (set ?M)" and dM: "distinct ?M"
    using dist by (simp_all add: distinct_map)
  have G_M: "?G = filter (\<lambda>d. longname d = L) ?M"
    by (simp add: conj_commute)
  have dG: "distinct (map docId ?G)"
    unfolding G_M using dist by (rule distinct_map_filter)
  have dS: "distinct ?S" using dG by (simp add: distinct_sort_ids)
  have S_ne: "?S \<noteq> []" using two length_sort_ids [of "map docId ?G"] by auto
  have "hd ?S \<in> set ?S" using S_ne by simp
  then have "hd ?S \<in> docId ` set ?G" by (simp add: set_sort_ids)
  then obtain m0 where m0: "m0 \<in> set ?G" "docId m0 = hd ?S" by auto
  then have m0_docs: "m0 \<in> set docs" "kind m0 = ''member''" "longname m0 = L" by auto
  have G_eq: "filter (\<lambda>d. longname d = L) docs = ?G"
    by (rule filter_cong) (use nocomp in auto)
  have pushed_G: "pushed_ids docs g = tl ?S" if "g \<in> set ?G" for g
  proof -
    from that have lg: "longname g = L" by simp
    have "\<forall>d\<in>set docs. longname d = longname g \<longrightarrow> kind d = ''member''"
      using nocomp lg by simp
    from pushed_ids_no_competitor [OF this] two show ?thesis by (simp add: lg)
  qed
  have in_tl: "docId g \<in> set (tl ?S)" if "g \<in> set ?G" "g \<noteq> m0" for g
  proof -
    have "g \<in> set ?M" "m0 \<in> set ?M" using that(1) m0(1) by simp_all
    then have "docId g \<noteq> docId m0"
      using inj that(2) by (auto dest: inj_onD)
    moreover have "docId g \<in> set ?S" using that(1) by (simp add: set_sort_ids)
    ultimately show ?thesis using m0(2) S_ne by (cases ?S) auto
  qed
  have least: "id_less (docId m0) (docId m')" if "m' \<in> set docs" "longname m' = L" "m' \<noteq> m0" for m'
  proof -
    have "m' \<in> set ?G" using that nocomp by simp
    from in_tl [OF this that(3)] sort_ids_hd_least [OF dG] m0(2) show ?thesis by simp
  qed
  have keep_iff: "?K g \<longleftrightarrow> g = m0" if "g \<in> set ?G" for g
  proof
    assume K: "?K g"
    show "g = m0"
    proof (rule ccontr)
      assume "g \<noteq> m0"
      from in_tl [OF that this] pushed_G [OF that] have "docId g \<in> set (pushed_ids docs g)" by simp
      moreover have "g \<in> set docs" "kind g = ''member''" using that by auto
      ultimately show False using K by blast
    qed
  next
    assume g: "g = m0"
    have "docId m0 \<notin> set (pushed_ids docs m)" if m: "m \<in> set docs" "kind m = ''member''" for m
    proof
      assume "docId m0 \<in> set (pushed_ids docs m)"
      from pushed_ids_origin [OF this m] obtain m' where
        m': "m' \<in> set docs" "kind m' = ''member''" "longname m' = longname m" "docId m' = docId m0"
        by auto
      then have "m' \<in> set ?M" "m0 \<in> set ?M" using m0_docs by simp_all
      then have "m' = m0" using inj m'(4) by (auto dest: inj_onD)
      then have "longname m = L" using m' m0_docs by simp
      then have "m \<in> set ?G" using m by simp
      from pushed_G [OF this] \<open>docId m0 \<in> set (pushed_ids docs m)\<close>
      have "hd ?S \<in> set (tl ?S)" using m0(2) by simp
      then show False using hd_notin_tl [OF dS S_ne] by simp
    qed
    then show "?K g" using g by blast
  qed
  have "filter (\<lambda>d. longname d = L) (resolveDuplication docs) = filter ?K (filter (\<lambda>d. longname d = L) docs)"
    by (subst resolveDuplication_filter) (rule filter_swap)
  also have "\<dots> = filter ?K ?G" by (simp only: G_eq)
  also have "\<dots> = filter (\<lambda>g. g = m0) ?G"
    by (rule filter_cong) (use keep_iff in auto)
  also have "\<dots> = [m0]"
    by (rule filter_eq_singleton [OF _ m0(1)]) (use dG in \<open>simp add: distinct_map\<close>)
  finally show ?thesis using m0_docs least by blast
qed

lemma two_record:
  assumes "i \<noteq> j"
  shows "resolveDuplication
     [\<lparr>docId = Some i, kind = ''member'', longname = L\<rparr>,
      \<lparr>docId = Some j, kind = ''method'', longname = L\<rparr>]
   = [\<lparr>docId = Some j, kind = ''method'', longname = L\<rparr>]"
   "resolveDuplication
     [\<lparr>docId = Some j, kind = ''method'', longname = L\<rparr>,
      \<lparr>docId = Some i, kind = ''member'', longname = L\<rparr>]
   = [\<lparr>docId = Some j, kind = ''method'', longname = L\<rparr>]"
  using assms by (simp_all add: resolveDuplication_def pushed_ids_def sort_ids_def)

subsection \<open>Claims about the duplicate resolver\<close>

text \<open>
  C1 (kind precedence). Whenever a record \<open>M\<close> of kind "member" shares its longname with a
  record of the collection whose kind is not "member", \<open>M\<close> is absent from the output of
  \<open>_resolveDuplication\<close>. For the two-record input of the specification (a member and a
  method with the same longname and different identifiers) only the method record
  survives, whichever identifier is the lower one and whichever record comes first.
\<close>

theorem kind_precedence:
  fixes docs :: "'a doc_scheme list"
  shows "(\<forall>M\<in>set docs. kind M = ''member'' \<and>
            (\<exists>d\<in>set docs. longname d = longname M \<and> kind d \<noteq> ''member'')
            \<longrightarrow> M \<notin> set (resolveDuplication docs))
      \<and> (\<forall>i j L. i \<noteq> j \<longrightarrow>
            resolveDuplication
              [\<lparr>docId = Some i, kind = ''member'', longname = L\<rparr>,
               \<lparr>docId = Some j, kind = ''method'', longname = L\<rparr>]
              = [\<lparr>docId = Some j, kind = ''method'', longname = L\<rparr>]
          \<and> resolveDuplication
              [\<lparr>docId = Some j, kind = ''method'', longname = L\<rparr>,
               \<lparr>docId = Some i, kind = ''member'', longname = L\<rparr>]
              = [\<lparr>docId = Some j, kind = ''method'', longname = L\<rparr>])"
proof (intro conjI ballI impI allI)
  fix M assume "M \<in> set docs"
    and "kind M = ''member'' \<and> (\<exists>d\<in>set docs. longname d = longname M \<and> kind d \<noteq> ''member'')"
  then show "M \<notin> set (resolveDuplication docs)"
    using member_with_competitor_removed by blast
next
  fix i j :: nat and L assume "i \<noteq> j"
  then show "resolveDuplication
              [\<lparr>docId = Some i, kind = ''member'', longname = L\<rparr>,
               \<lparr>docId = Some j, kind = ''method'', longname = L\<rparr>]
              = [\<lparr>docId = Some j, kind = ''method'', longname = L\<rparr>]"
    by (simp add: two_record)
next
  fix i j :: nat and L assume "i \<noteq> j"
  then show "resolveDuplication
              [\<lparr>docId = Some j, kind = ''method'', longname = L\<rparr>,
               \<lparr>docId = Some i, kind = ''member'', longname = L\<rparr>]
              = [\<lparr>docId = Some j, kind = ''method'', longname = L\<rparr>]"
    by (simp add: two_record)
qed

theorem kind_precedence_witness:
  "\<lparr>docId = Some 1, kind = ''member'', longname = ''Foo#x''\<rparr>
     \<notin> set (resolveDuplication
         [\<lparr>docId = Some 1, kind = ''member'', longname = ''Foo#x''\<rparr>,
          \<lparr>docId = Some 2, kind = ''method'', longname = ''Foo#x''\<rparr>,
          \<lparr>docId = Some 3, kind = ''class'', longname = ''Foo''\<rparr>])
   \<and> resolveDuplication
         [\<lparr>docId = Some 2, kind = ''member'', longname = ''Foo#x''\<rparr>,
          \<lparr>docId = Some 1, kind = ''method'', longname = ''Foo#x''\<rparr>]
       = [\<lparr>docId = Some 1, kind = ''method'', longname = ''Foo#x''\<rparr>]"
proof -
  let ?D = "[\<lparr>docId = Some 1, kind = ''member'', longname = ''Foo#x''\<rparr>,
          \<lparr>docId = Some 2, kind = ''method'', longname = ''Foo#x''\<rparr>,
          \<lparr>docId = Some 3, kind = ''class'', longname = ''Foo''\<rparr>]"
  have h: "\<lparr>docId = Some 1, kind = ''member'', longname = ''Foo#x''\<rparr> \<in> set ?D"
    "\<exists>d\<in>set ?D. longname d = longname \<lparr>docId = Some 1, kind = ''member'', longname = ''Foo#x''\<rparr>
        \<and> kind d \<noteq> ''member''"
    by simp_all
  have n: "(2::nat) \<noteq> 1" by simp
  from kind_precedence [of ?D] h
  have "\<lparr>docId = Some 1, kind = ''member'', longname = ''Foo#x''\<rparr> \<notin> set (resolveDuplication ?D)"
    by simp
  moreover from kind_precedence [of "[]"] n
  have "resolveDuplication
         [\<lparr>docId = Some 2, kind = ''member'', longname = ''Foo#x''\<rparr>,
          \<lparr>docId = Some 1, kind = ''method'', longname = ''Foo#x''\<rparr>]
       = [\<lparr>docId = Some 1, kind = ''method'', longname = ''Foo#x''\<rparr>]"
    by blast
  ultimately show ?thesis by (rule conjI)
qed

text \<open>
  C2 (member-member collapse). A creation-sequence identifier is given to one record
  only, so the member records of a collection carry pairwise-distinct identifiers; the
  records that have no identifier (the synthetic index and package records) are not
  constrained. For every such collection in which two or more records of kind "member"
  share the longname \<open>L\<close> and no record of another kind has longname \<open>L\<close>, exactly one
  record with longname \<open>L\<close> survives: the member whose identifier is the lowest.
\<close>

theorem member_collapse_lowest_id:
  fixes docs :: "'a doc_scheme list"
  assumes "distinct (map docId (filter (\<lambda>d. kind d = ''member'') docs))"
    and "2 \<le> length (filter (\<lambda>d. longname d = L \<and> kind d = ''member'') docs)"
    and "\<forall>d\<in>set docs. longname d = L \<longrightarrow> kind d = ''member''"
  shows "\<exists>m\<in>set docs. kind m = ''member'' \<and> longname m = L
           \<and> (\<forall>m'\<in>set docs. longname m' = L \<and> m' \<noteq> m \<longrightarrow> id_less (docId m) (docId m'))
           \<and> filter (\<lambda>d. longname d = L) (resolveDuplication docs) = [m]"
  using assms by (rule member_collapse)

theorem member_collapse_lowest_id_witness:
  "\<exists>m\<in>set [\<lparr>docId = Some 2, kind = ''member'', longname = ''Foo#y''\<rparr>,
             \<lparr>docId = Some 1, kind = ''member'', longname = ''Foo#y''\<rparr>,
             \<lparr>docId = Some 3, kind = ''class'', longname = ''Foo''\<rparr>,
             \<lparr>docId = None, kind = ''index'', longname = ''/README.md''\<rparr>,
             \<lparr>docId = None, kind = ''packageJSON'', longname = ''/package.json''\<rparr>].
      docId m = Some 1
      \<and> filter (\<lambda>d. longname d = ''Foo#y'')
          (resolveDuplication
            [\<lparr>docId = Some 2, kind = ''member'', longname = ''Foo#y''\<rparr>,
             \<lparr>docId = Some 1, kind = ''member'', longname = ''Foo#y''\<rparr>,
             \<lparr>docId = Some 3, kind = ''class'', longname = ''Foo''\<rparr>,
             \<lparr>docId = None, kind = ''index'', longname = ''/README.md''\<rparr>,
             \<lparr>docId = None, kind = ''packageJSON'', longname = ''/package.json''\<rparr>]) = [m]"
proof -
  let ?D = "[\<lparr>docId = Some 2, kind = ''member'', longname = ''Foo#y''\<rparr>,
             \<lparr>docId = Some 1, kind = ''member'', longname = ''Foo#y''\<rparr>,
             \<lparr>docId = Some 3, kind = ''class'', longname = ''Foo''\<rparr>,
             \<lparr>docId = None, kind = ''index'', longname = ''/README.md''\<rparr>,
             \<lparr>docId = None, kind = ''packageJSON'', longname = ''/package.json''\<rparr>]"
  have h1: "distinct (map docId (filter (\<lambda>d. kind d = ''member'') ?D))" by simp
  have h2: "2 \<le> length (filter (\<lambda>d. longname d = ''Foo#y'' \<and> kind d = ''member'') ?D)" by simp
  have h3: "\<forall>d\<in>set ?D. longname d = ''Foo#y'' \<longrightarrow> kind d = ''member''" by simp
  from member_collapse_lowest_id [OF h1 h2 h3] obtain m where
    m: "m \<in> set ?D" "longname m = ''Foo#y''"
       "\<forall>m'\<in>set ?D. longname m' = ''Foo#y'' \<and> m' \<noteq> m \<longrightarrow> id_less (docId m) (docId m')"
       "filter (\<lambda>d. longname d = ''Foo#y'') (resolveDuplication ?D) = [m]"
    by blast
  have "docId m = Some 1"
  proof (rule ccontr)
    assume neq: "docId m \<noteq> Some 1"
    with m(1,2) have "m = \<lparr>docId = Some 2, kind = ''member'', longname = ''Foo#y''\<rparr>" by auto
    with m(3) show False by simp
  qed
  with m(1,4) show ?thesis by blast
qed

text \<open>
  What the hypothesis on the identifiers is for: the last filter of \<open>_resolveDuplication\<close>
  removes by identifier, so two member records that carried the same identifier would
  be removed together.
\<close>

lemma members_with_equal_ids:
  "resolveDuplication
     [\<lparr>docId = Some 1, kind = ''member'', longname = ''Foo#y''\<rparr>,
      \<lparr>docId = Some 2, kind = ''member'', longname = ''Foo#y''\<rparr>,
      \<lparr>docId = Some 1, kind = ''member'', longname = ''Foo#x''\<rparr>,
      \<lparr>docId = Some 3, kind = ''method'', longname = ''Foo#x''\<rparr>]
   = [\<lparr>docId = Some 3, kind = ''method'', longname = ''Foo#x''\<rparr>]"
  by (simp add: resolveDuplication_def pushed_ids_def sort_ids_def)

text \<open>
  C3 (only members removed, order kept). For a collection whose identifiers are pairwise
  distinct, the output of \<open>_resolveDuplication\<close> is a subsequence of the input and contains
  every record whose kind is not "member".
\<close>

theorem only_members_removed:
  fixes docs :: "'a doc_scheme list"
  assumes "distinct (map docId docs)"
  shows "subseq (resolveDuplication docs) docs
       \<and> (\<forall>d\<in>set docs. kind d \<noteq> ''member'' \<longrightarrow> d \<in> set (resolveDuplication docs))"
proof (intro conjI ballI impI)
  show "subseq (resolveDuplication docs) docs" by (rule subseq_resolveDuplication)
next
  fix d assume d: "d \<in> set docs" "kind d \<noteq> ''member''"
  have inj: "inj_on docId (set docs)" using assms by (simp add: distinct_map)
  have "\<forall>m\<in>set docs. kind m = ''member'' \<longrightarrow> docId m \<noteq> docId d"
    using inj d by (auto dest: inj_onD)
  with d show "d \<in> set (resolveDuplication docs)" by (rule nonmember_kept)
qed

theorem only_members_removed_witness:
  "subseq (resolveDuplication
       [\<lparr>docId = Some 1, kind = ''class'', longname = ''Foo''\<rparr>,
        \<lparr>docId = Some 2, kind = ''member'', longname = ''Foo#x''\<rparr>,
        \<lparr>docId = Some 3, kind = ''get'', longname = ''Foo#x''\<rparr>,
        \<lparr>docId = None, kind = ''index'', longname = ''/README.md''\<rparr>])
     [\<lparr>docId = Some 1, kind = ''class'', longname = ''Foo''\<rparr>,
      \<lparr>docId = Some 2, kind = ''member'', longname = ''Foo#x''\<rparr>,
      \<lparr>docId = Some 3, kind = ''get'', longname = ''Foo#x''\<rparr>,
      \<lparr>docId = None, kind = ''index'', longname = ''/README.md''\<rparr>]
   \<and> \<lparr>docId = None, kind = ''index'', longname = ''/README.md''\<rparr>
     \<in> set (resolveDuplication
       [\<lparr>docId = Some 1, kind = ''class'', longname = ''Foo''\<rparr>,
        \<lparr>docId = Some 2, kind = ''member'', longname = ''Foo#x''\<rparr>,
        \<lparr>docId = Some 3, kind = ''get'', longname = ''Foo#x''\<rparr>,
        \<lparr>docId = None, kind = ''index'', longname = ''/README.md''\<rparr>])"
proof -
  let ?D = "[\<lparr>docId = Some 1, kind = ''class'', longname = ''Foo''\<rparr>,
        \<lparr>docId = Some 2, kind = ''member'', longname = ''Foo#x''\<rparr>,
        \<lparr>docId = Some 3, kind = ''get'', longname = ''Foo#x''\<rparr>,
        \<lparr>docId = None, kind = ''index'', longname = ''/README.md''\<rparr>]"
  have h: "distinct (map docId ?D)" by simp
  have i: "\<lparr>docId = None, kind = ''index'', longname = ''/README.md''\<rparr> \<in> set ?D"
    "kind \<lparr>docId = None, kind = ''index'', longname = ''/README.md''\<rparr> \<noteq> ''member''"
    by simp_all
  from only_members_removed [OF h] i show ?thesis by blast
qed

text \<open>
  C10 (idempotence). For a collection whose identifiers are pairwise distinct, resolving
  the output of \<open>_resolveDuplication\<close> again removes nothing. (The helper lemma
  \<open>resolveDuplication_idem\<close> shows that the equation holds for every collection.)
\<close>

theorem resolver_idempotent:
  fixes docs :: "'a doc_scheme list"
  assumes "distinct (map docId docs)"
  shows "resolveDuplication (resolveDuplication docs) = resolveDuplication docs"
  by (rule resolveDuplication_idem)

theorem resolver_idempotent_witness:
  "resolveDuplication (resolveDuplication
       [\<lparr>docId = Some 1, kind = ''member'', longname = ''Foo#y''\<rparr>,
        \<lparr>docId = Some 2, kind = ''member'', longname = ''Foo#y''\<rparr>,
        \<lparr>docId = Some 3, kind = ''member'', longname = ''Foo#x''\<rparr>,
        \<lparr>docId = Some 4, kind = ''set'', longname = ''Foo#x''\<rparr>])
   = resolveDuplication
       [\<lparr>docId = Some 1, kind = ''member'', longname = ''Foo#y''\<rparr>,
        \<lparr>docId = Some 2, kind = ''member'', longname = ''Foo#y''\<rparr>,
        \<lparr>docId = Some 3, kind = ''member'', longname = ''Foo#x''\<rparr>,
        \<lparr>docId = Some 4, kind = ''set'', longname = ''Foo#x''\<rparr>]"
proof -
  have h: "distinct (map docId
       [\<lparr>docId = Some 1, kind = ''member'', longname = ''Foo#y''\<rparr>,
        \<lparr>docId = Some 2, kind = ''member'', longname = ''Foo#y''\<rparr>,
        \<lparr>docId = Some 3, kind = ''member'', longname = ''Foo#x''\<rparr>,
        \<lparr>docId = Some 4, kind = ''set'', longname = ''Foo#x''\<rparr>])" by simp
  from resolver_idempotent [OF h] show ?thesis .
qed

section \<open>Properties of the extraction driver, the walker and generate\<close>

lemma includes_loop_iff: "includes_loop regs rel \<longleftrightarrow> (\<exists>reg\<in>set regs. reg rel)"
  by (induction regs) auto

lemma excludes_loop_iff: "excludes_loop regs rel \<longleftrightarrow> (\<exists>reg\<in>set regs. reg rel)"
  by (induction regs) auto

lemma log_log: "log b (log a st) = log (a @ b) st"
  by (simp add: log_def)

lemma trace_log: "trace (log evs st) = trace st @ evs"
  by (simp add: log_def)

lemma results_log: "results (log evs st) = results st"
  by (simp add: log_def)

lemma ast_writes_log: "ast_writes (log evs st) = ast_writes st"
  by (simp add: log_def)

lemma walkCallback_rejected:
  assumes "\<not> (includes_loop (cl_includes cl) (path_relative (cl_sourceDirPath cl) filePath)
         \<and> \<not> excludes_loop (cl_excludes cl) (path_relative (cl_sourceDirPath cl) filePath))"
  shows "walkCallback cl filePath st = Returned () st"
  using assms by (auto simp: walkCallback_def Let_def)

lemma walkCallback_accepted_events:
  assumes "includes_loop (cl_includes cl) (path_relative (cl_sourceDirPath cl) filePath)"
    and "\<not> excludes_loop (cl_excludes cl) (path_relative (cl_sourceDirPath cl) filePath)"
  shows "\<exists>rest. new_events st (walkCallback cl filePath st) = LogInfoParse filePath # ParseFile filePath # rest"
  using assms
  by (simp add: walkCallback_def Let_def traverse_def new_events_def log_def
      split: option.splits outcome.splits prod.splits sum.splits)



lemma walk_entries_file:
  assumes "fsys (path_resolve dirPath [entry]) = Some (File content)"
    and "callback (path_resolve dirPath [entry]) None (log [Stat (path_resolve dirPath [entry])] st) = Returned () st'"
  shows "walk_entries n fsys dirPath (entry # rest) callback recurse st
       = walk_entries n fsys dirPath rest callback recurse st'"
  using assms by (simp add: statSync_def)

lemma walkRoot_unparseable:
  assumes "fsys dirPath = Some (Dir entries)" "''package.json'' \<in> set entries"
    and "require fsys (path_resolve dirPath [''package.json'']) = None"
  shows "walkRoot (Suc n) this fsys dirPath callback st =
     Some (Returned ()
       (log [Readdir dirPath, Require (path_resolve dirPath [''package.json'']),
             ConsoleErrorFailedToParse (path_resolve dirPath [''package.json'']),
             ConsoleErrorUnparseable (path_resolve dirPath [''package.json''])] st))"
  using assms by (simp add: readdirSync_def)

lemma walk_entries_unparseable:
  assumes "fsys (path_resolve parent [entry]) = Some (Dir entries)" "''package.json'' \<in> set entries"
    and "require fsys (path_resolve (path_resolve parent [entry]) [''package.json'']) = None"
  shows "walk_entries (Suc n) fsys parent (entry # rest) callback WALKROOT st =
         walk_entries (Suc n) fsys parent rest callback WALKROOT
           (log [Stat (path_resolve parent [entry]), Readdir (path_resolve parent [entry]),
                 Require (path_resolve (path_resolve parent [entry]) [''package.json'']),
                 ConsoleErrorFailedToParse (path_resolve (path_resolve parent [entry]) [''package.json'']),
                 ConsoleErrorUnparseable (path_resolve (path_resolve parent [entry]) [''package.json''])] st)"
  using assms by (simp add: statSync_def readdirSync_def log_log)

lemma preflight:
  assumes "(truthy (root cfg) \<and> (truthy (source cfg) \<or> truthy (package cfg))) \<or> \<not> truthy (destination cfg)"
  shows "generate fuel e cfg = Some (Threw AssertionError init_state)"
  using assms by (auto simp: generate_def)

lemma setDefaultConfig_defaults:
  "includes' (setDefaultConfig c) \<noteq> None \<and> excludes' (setDefaultConfig c) \<noteq> None
   \<and> truthy (index (setDefaultConfig c))
   \<and> (truthy (source (setDefaultConfig c)) \<longrightarrow> truthy (package (setDefaultConfig c)))"
  by (simp add: setDefaultConfig_def Let_def truthy_def)

text \<open>
  A directory without \<open>package.json\<close> that \<open>_walk\<close> hands to \<open>_walkRoot\<close>: \<open>this\<close> is
  \<open>undefined\<close> there, and \<open>this._walk\<close> throws.
\<close>

lemma walkRoot_unbound_this:
  assumes "fsys dirPath = Some (Dir entries)" "''package.json'' \<notin> set entries"
  shows "walkRoot (Suc n) Undefined fsys dirPath callback st =
           Some (Threw TypeError (log [Readdir dirPath] st))"
  using assms by (simp add: readdirSync_def)

text \<open>
  A package whose source directory cannot be listed: after the diagnostics and the
  callback for the descriptor, \<open>_walkRoot\<close> recurses into it and \<open>readdirSync\<close> throws.
\<close>

lemma walkRoot_missing_src:
  assumes "fsys dirPath = Some (Dir entries)" "''package.json'' \<in> set entries"
    and "require fsys (path_resolve dirPath [''package.json'']) = Some (JObject packageObj)"
    and "readdirSync fsys (path_resolve dirPath (src_of packageObj)) = Inl ex"
    and "callback (path_resolve dirPath [''package.json'']) (Some (JObject packageObj))
           (log ([Readdir dirPath, Require (path_resolve dirPath [''package.json'']),
                  ConsoleLogFoundPackage (path_resolve dirPath [''package.json'']),
                  Stat (path_resolve dirPath (src_of packageObj))]
                 @ srcDir_diagnostics fsys (path_resolve dirPath (src_of packageObj))) st) = Returned () st'"
  shows "walkRoot (Suc (Suc n)) ESDoc fsys dirPath callback st =
           Some (Threw ex (log [Readdir (path_resolve dirPath (src_of packageObj))] st'))"
  using assms by (simp add: readdirSync_def)

lemma config_order:
  assumes "truthy (root cfg) \<or> truthy (source cfg)"
    and "truthy (root cfg) \<longrightarrow> \<not> truthy (source cfg) \<and> \<not> truthy (package cfg)"
    and "truthy (destination cfg)"
    and "\<forall>key\<in>set old_keys. key \<notin> set (other_keys cfg)"
  shows "generate fuel e cfg =
           run_with_config fuel e (setDefaultConfig (onHandleConfig e cfg))
             (log [PluginInit (plugins cfg), PluginOnStart, PluginOnHandleConfig cfg] init_state)"
proof -
  have "filter (\<lambda>key. key \<in> set (other_keys cfg)) old_keys = []"
    using assms(4) by (simp add: filter_empty_conv)
  then have "checkOldConfig cfg (init_state :: 'a run_state) = Returned () init_state"
    by (simp add: checkOldConfig_def log_def)
  then show ?thesis using assms(1,2,3) by (auto simp: generate_def prepare_config_def)
qed


















subsection \<open>Claims about path matching and the extraction driver\<close>

text \<open>
  C4 (path matching). \<open>walkCallback\<close> hands a file to extraction (\<open>ESParser.parse\<close> is
  called on it) if and only if its path relative to the source directory matches at least
  one include pattern and none of the exclude patterns. In particular a path that matches
  an exclude pattern is never parsed, whatever the include patterns say.
\<close>

theorem path_matching:
  "(ParseFile filePath \<in> set (new_events st (walkCallback cl filePath st)))
     \<longleftrightarrow> ((\<exists>reg\<in>set (cl_includes cl). reg (path_relative (cl_sourceDirPath cl) filePath))
          \<and> (\<forall>reg\<in>set (cl_excludes cl). \<not> reg (path_relative (cl_sourceDirPath cl) filePath)))"
proof (cases "includes_loop (cl_includes cl) (path_relative (cl_sourceDirPath cl) filePath)
         \<and> \<not> excludes_loop (cl_excludes cl) (path_relative (cl_sourceDirPath cl) filePath)")
  case True
  then obtain rest where
    "new_events st (walkCallback cl filePath st) = LogInfoParse filePath # ParseFile filePath # rest"
    using walkCallback_accepted_events by blast
  then show ?thesis using True by (auto simp: includes_loop_iff excludes_loop_iff)
next
  case False
  then have "new_events st (walkCallback cl filePath st) = []"
    by (simp only: walkCallback_rejected [OF False]) (simp add: new_events_def)
  then show ?thesis using False by (auto simp: includes_loop_iff excludes_loop_iff)
qed

theorem path_matching_witness:
  "ParseFile [''src'', ''good1.js'']
     \<in> set (new_events init_state (walkCallback example_closure [''src'', ''good1.js''] init_state))
   \<and> ParseFile [''src'', ''good2.test.js'']
     \<notin> set (new_events init_state (walkCallback example_closure [''src'', ''good2.test.js''] init_state))"
proof -
  have a: "(\<exists>reg\<in>set (cl_includes example_closure).
              reg (path_relative (cl_sourceDirPath example_closure) [''src'', ''good1.js'']))
         \<and> (\<forall>reg\<in>set (cl_excludes example_closure).
              \<not> reg (path_relative (cl_sourceDirPath example_closure) [''src'', ''good1.js'']))"
    by (simp add: example_closure_def ends_with_def)
  have b: "\<not> (\<forall>reg\<in>set (cl_excludes example_closure).
              \<not> reg (path_relative (cl_sourceDirPath example_closure) [''src'', ''good2.test.js'']))"
    by (simp add: example_closure_def ends_with_def)
  from a have 1: "ParseFile [''src'', ''good1.js'']
     \<in> set (new_events init_state (walkCallback example_closure [''src'', ''good1.js''] init_state))"
    using path_matching [of "[''src'', ''good1.js'']" init_state example_closure] by blast
  from b have 2: "ParseFile [''src'', ''good2.test.js'']
     \<notin> set (new_events init_state (walkCallback example_closure [''src'', ''good2.test.js''] init_state))"
    using path_matching [of "[''src'', ''good2.test.js'']" init_state example_closure] by blast
  from 1 2 show ?thesis by (rule conjI)
qed




subsection \<open>Claims about the package-aware walk\<close>

text \<open>
  C5 (missing source subdirectory). The specification says that a package whose source
  subdirectory does not exist yields no files and that the run goes on. \<open>_walkRoot\<close> does
  catch the failing \<open>statSync\<close> and prints its diagnostics, but it then calls itself on the
  missing directory all the same, and \<open>readdirSync\<close> throws there. Evaluated for a
  directory that holds a \<open>package.json\<close> (no \<open>directories.src\<close>) and no \<open>src\<close>: the
  diagnostics are printed, the descriptor is recorded, and the walk ends with \<open>ENOENT\<close>.
\<close>

theorem missing_src_directory_throws:
  "walkRoot 2 ESDoc missing_src_fs [] (walkRootCallback example_closure) init_state =
     Some (Threw (ENOENT [''src''])
       \<lparr>results = [\<lparr>docId = None, kind = ''package'', longname = ''/package.json''\<rparr>],
        ast_writes = [],
        trace = [Readdir [], Require [''package.json''], ConsoleLogFoundPackage [''package.json''],
                 Stat [''src''], ConsoleErrorSrcMissing [''src''], ConsoleErrorPackageHint,
                 ConsoleErrorOverrideHint, Readdir [''src'']],
        index_json = None\<rparr>)"
  by (simp add: eval_nat_numeral missing_src_fs_def readdirSync_def require_def path_resolve_def
      path_step_def src_of_def srcDir_diagnostics_def statSync_def log_def init_state_def
      walkRootCallback_def basename_def generateForPackageJSON_def path_string_def)

text \<open>
  C6 (unparseable descriptor). The first half of the claim holds (lemma
  \<open>walkRoot_unparseable\<close>): for a directory whose \<open>package.json\<close> does not load,
  \<open>_walkRoot\<close> prints two error messages and returns without calling the callback and
  without reading anything below the directory. The second half does not: \<open>_walk\<close> calls
  \<open>recurse(entryPath, callback, recurse)\<close> as a plain function, so \<open>this\<close> is \<open>undefined\<close>
  inside that \<open>_walkRoot\<close>, and for an ordinary sibling directory \<open>this._walk\<close> throws a
  \<open>TypeError\<close> that ends the whole walk. Evaluated on a root that holds the directory
  \<open>a\<close> (with a descriptor that does not load), the ordinary directory \<open>c\<close> and the file
  \<open>b.js\<close>: after \<open>a\<close> is given up the caller does go on to \<open>c\<close>, lists it and throws;
  neither \<open>c/y.js\<close> nor \<open>b.js\<close> is ever handed to the callback.
\<close>

theorem sibling_directory_not_walked:
  "walkRoot 3 ESDoc sibling_dir_fs [] (walkRootCallback example_closure) init_state =
     Some (Threw TypeError
       \<lparr>results = [], ast_writes = [],
        trace = [Readdir [], Readdir [], Stat [''a''], Readdir [''a''],
                 Require [''a'', ''package.json''],
                 ConsoleErrorFailedToParse [''a'', ''package.json''],
                 ConsoleErrorUnparseable [''a'', ''package.json''],
                 Stat [''c''], Readdir [''c'']],
        index_json = None\<rparr>)"
  by (simp add: eval_nat_numeral sibling_dir_fs_def readdirSync_def require_def path_resolve_def
      path_step_def statSync_def log_def init_state_def)

subsection \<open>Claims about the configuration\<close>

text \<open>
  C8 (pre-flight validation). When \<open>root\<close> is set together with \<open>source\<close> or \<open>package\<close>, or
  when \<open>destination\<close> is absent (or empty), \<open>generate\<close> ends with the \<open>AssertionError\<close> of
  one of its \<open>assert\<close> calls in the initial state: nothing has been logged, no plugin hook
  has run, no directory has been read and no file touched. This holds for every file
  system and with no fuel at all. "Set" is read as truthy, which is what \<open>assert\<close> tests.
\<close>

theorem preflight_validation:
  assumes "(truthy (root cfg) \<and> (truthy (source cfg) \<or> truthy (package cfg)))
           \<or> \<not> truthy (destination cfg)"
  shows "generate fuel e cfg = Some (Threw AssertionError init_state)"
  using assms by (rule preflight)

theorem preflight_validation_witness:
  "generate 0 example_env (example_config\<lparr>root := Some [''.'']\<rparr>)
     = Some (Threw AssertionError init_state)
   \<and> generate 0 example_env (example_config\<lparr>source := None, root := Some [''.''], package := Some [''package.json'']\<rparr>)
     = Some (Threw AssertionError init_state)
   \<and> generate 5 example_env (example_config\<lparr>destination := None\<rparr>)
     = Some (Threw AssertionError init_state)"
proof -
  have h1: "(truthy (root (example_config\<lparr>root := Some [''.'']\<rparr>))
             \<and> (truthy (source (example_config\<lparr>root := Some [''.'']\<rparr>))
                \<or> truthy (package (example_config\<lparr>root := Some [''.'']\<rparr>))))
           \<or> \<not> truthy (destination (example_config\<lparr>root := Some [''.'']\<rparr>))"
    by (simp add: example_config_def truthy_def)
  let ?c2 = "example_config\<lparr>source := None, root := Some [''.''], package := Some [''package.json'']\<rparr>"
  have h2: "(truthy (root ?c2) \<and> (truthy (source ?c2) \<or> truthy (package ?c2)))
           \<or> \<not> truthy (destination ?c2)"
    by (simp add: example_config_def truthy_def)
  let ?c3 = "example_config\<lparr>destination := None\<rparr>"
  have h3: "(truthy (root ?c3) \<and> (truthy (source ?c3) \<or> truthy (package ?c3)))
           \<or> \<not> truthy (destination ?c3)"
    by (simp add: example_config_def truthy_def)
  from preflight_validation [OF h1, of 0 example_env]
       preflight_validation [OF h2, of 0 example_env]
       preflight_validation [OF h3, of 5 example_env]
  show ?thesis by blast
qed

text \<open>
  C9 (configuration lifecycle), as stated, fails: \<open>generate\<close> calls
  \<open>Plugin.onHandleConfig\<close> first and \<open>_setDefaultConfig\<close> on its result, so the hook sees
  the configuration without defaults and the defaults fill in what the hook returns. For
  a hook that drops \<open>includes\<close>, the configuration of the run has the default patterns,
  where the order of the specification would leave it with none.
\<close>

theorem config_lifecycle_counterexample:
  "includes' (prepare_config dropping_env example_config) = Some default_includes
   \<and> includes' (spec_prepare_config dropping_env example_config) = None"
  by (simp add: prepare_config_def spec_prepare_config_def dropping_env_def example_env_def
      example_config_def setDefaultConfig_def Let_def truthy_def)

text \<open>
  C9, amended: in every run that passes validation, \<open>onHandleConfig\<close> is called once, on
  the configuration as supplied, and the defaults are then applied once to the
  configuration the hook returns (the config hook precedes defaulting). The rest of the
  run works with that defaulted configuration, in which \<open>includes\<close>, \<open>excludes\<close> and \<open>index\<close>
  are present whatever the hook returned.
\<close>

theorem config_hook_precedes_defaulting:
  assumes "truthy (root cfg) \<or> truthy (source cfg)"
    and "truthy (root cfg) \<longrightarrow> \<not> truthy (source cfg) \<and> \<not> truthy (package cfg)"
    and "truthy (destination cfg)"
    and "\<forall>key\<in>set old_keys. key \<notin> set (other_keys cfg)"
  shows "generate fuel e cfg =
           run_with_config fuel e (setDefaultConfig (onHandleConfig e cfg))
             (log [PluginInit (plugins cfg), PluginOnStart, PluginOnHandleConfig cfg] init_state)
       \<and> includes' (setDefaultConfig (onHandleConfig e cfg)) \<noteq> None
       \<and> excludes' (setDefaultConfig (onHandleConfig e cfg)) \<noteq> None
       \<and> truthy (index (setDefaultConfig (onHandleConfig e cfg)))"
  using config_order [OF assms, of fuel e] setDefaultConfig_defaults [of "onHandleConfig e cfg"]
  by simp

theorem config_hook_precedes_defaulting_witness:
  "generate 5 dropping_env example_config =
     run_with_config 5 dropping_env (setDefaultConfig (onHandleConfig dropping_env example_config))
       (log [PluginInit (plugins example_config), PluginOnStart, PluginOnHandleConfig example_config]
          init_state)
   \<and> includes' (setDefaultConfig (onHandleConfig dropping_env example_config)) = Some default_includes"
proof -
  have h1: "truthy (root example_config) \<or> truthy (source example_config)"
    by (simp add: example_config_def truthy_def)
  have h2: "truthy (root example_config) \<longrightarrow>
      \<not> truthy (source example_config) \<and> \<not> truthy (package example_config)"
    by (simp add: example_config_def truthy_def)
  have h3: "truthy (destination example_config)"
    by (simp add: example_config_def truthy_def)
  have h4: "\<forall>key\<in>set old_keys. key \<notin> set (other_keys example_config)"
    by (simp add: example_config_def)
  have d: "includes' (setDefaultConfig (onHandleConfig dropping_env example_config)) = Some default_includes"
    by (simp add: dropping_env_def example_env_def example_config_def setDefaultConfig_def Let_def)
  from config_hook_precedes_defaulting [OF h1 h2 h3 h4, of 5 dropping_env] d
  show ?thesis by simp
qed

end
